theory Spec2Isabelle
  imports Complex_Main
begin

text \<open>
  The client script of the ``Interest Calculation'' form
  (\<^verbatim>\<open>doctype/interest_calculation/interest_calculation.js\<close>): three change handlers
  that recompute \<open>interest_amount\<close> and \<open>final_amount\<close> from \<open>approved_amount\<close>,
  \<open>interest\<close> and \<open>tenure\<close>, and a \<open>setup\<close> handler that installs the query of the
  \<open>full_name\<close> link field. The form object \<open>frm\<close>, its methods \<open>set_value\<close> and
  \<open>set_query\<close>, and the coercion \<open>flt\<close> belong to the host framework; they are modelled
  from what the specification says of them, and marked so.
\<close>

section \<open>JavaScript numbers\<close>

text \<open>
  The form script computes with JavaScript Number values: IEEE 754 binary64, every
  arithmetic result rounded to the nearest double, ties to the even significand.
  A number is NaN, an infinity or a finite value, held as a sign (\<open>True\<close> is negative,
  so that both zeros exist) and a rational magnitude. The genuine doubles among the
  finite values are those that rounding leaves alone (\<open>is_double\<close>).
\<close>

datatype jsnum = NaN | Infinity bool | Fin bool rat

text \<open>The number of binary digits of a positive integer.\<close>

function bitlen :: "int \<Rightarrow> nat" where
  "bitlen n = (if n \<le> 0 then 0 else Suc (bitlen (n div 2)))"
  by pat_completeness auto
termination
  by (relation "measure nat") auto

declare bitlen.simps [simp del]

text \<open>\<open>ilog2 a\<close> is the integer part of the binary logarithm of a positive rational.\<close>

definition ilog2 :: "rat \<Rightarrow> int" where
  "ilog2 a =
     (if 1 \<le> a then int (bitlen \<lfloor>a\<rfloor>) - 1
      else let k = int (bitlen \<lfloor>1 / a\<rfloor>) - 1
           in if 1 / a = 2 ^ nat k then - k else - k - 1)"

definition round_half_even :: "rat \<Rightarrow> int" where
  "round_half_even x =
     (let f = \<lfloor>x\<rfloor>; r = x - of_int f
      in if r < 1 / 2 then f
         else if 1 / 2 < r then f + 1
         else if even f then f else f + 1)"

text \<open>
  Rounding a magnitude to binary64: 53 significant bits, the unit in the last place
  never below \<open>2 powi - 1074\<close> (subnormals), and infinity from \<open>2 ^ 1024\<close> on.
\<close>

definition round_double :: "bool \<Rightarrow> rat \<Rightarrow> jsnum" where
  "round_double s a =
     (if a = 0 then Fin s 0
      else let q = max (ilog2 a - 52) (- 1074);
               v = of_int (round_half_even (a / power_int 2 q)) * power_int 2 q
           in if 2 ^ 1024 \<le> v then Infinity s else Fin s v)"

text \<open>The Number value of a decimal literal of the source text.\<close>

definition num_lit :: "rat \<Rightarrow> jsnum" where
  "num_lit q = round_double (q < 0) \<bar>q\<bar>"

definition val :: "bool \<Rightarrow> rat \<Rightarrow> rat" where
  "val s a = (if s then - a else a)"

definition is_double :: "jsnum \<Rightarrow> bool" where
  "is_double x = (case x of Fin s a \<Rightarrow> 0 \<le> a \<and> round_double s a = Fin s a | _ \<Rightarrow> True)"

text \<open>The operators \<open>*\<close>, \<open>/\<close>, \<open>+\<close> and \<open>-\<close> on Numbers.\<close>

fun js_mul :: "jsnum \<Rightarrow> jsnum \<Rightarrow> jsnum" where
  "js_mul NaN y = NaN"
| "js_mul x NaN = NaN"
| "js_mul (Infinity s) (Infinity t) = Infinity (s \<noteq> t)"
| "js_mul (Infinity s) (Fin t b) = (if b = 0 then NaN else Infinity (s \<noteq> t))"
| "js_mul (Fin s a) (Infinity t) = (if a = 0 then NaN else Infinity (s \<noteq> t))"
| "js_mul (Fin s a) (Fin t b) = round_double (s \<noteq> t) (a * b)"

fun js_div :: "jsnum \<Rightarrow> jsnum \<Rightarrow> jsnum" where
  "js_div NaN y = NaN"
| "js_div x NaN = NaN"
| "js_div (Infinity s) (Infinity t) = NaN"
| "js_div (Infinity s) (Fin t b) = Infinity (s \<noteq> t)"
| "js_div (Fin s a) (Infinity t) = Fin (s \<noteq> t) 0"
| "js_div (Fin s a) (Fin t b) =
     (if b = 0 then (if a = 0 then NaN else Infinity (s \<noteq> t))
      else round_double (s \<noteq> t) (a / b))"

fun js_add :: "jsnum \<Rightarrow> jsnum \<Rightarrow> jsnum" where
  "js_add NaN y = NaN"
| "js_add x NaN = NaN"
| "js_add (Infinity s) (Infinity t) = (if s = t then Infinity s else NaN)"
| "js_add (Infinity s) (Fin t b) = Infinity s"
| "js_add (Fin s a) (Infinity t) = Infinity t"
| "js_add (Fin s a) (Fin t b) =
     (let r = val s a + val t b
      in if r = 0 then Fin (s \<and> t) 0 else round_double (r < 0) \<bar>r\<bar>)"



text \<open>The operator \<open>===\<close> on Numbers: NaN equals nothing, the two zeros are equal.\<close>

fun js_strict_equals :: "jsnum \<Rightarrow> jsnum \<Rightarrow> bool" where
  "js_strict_equals NaN y = False"
| "js_strict_equals x NaN = False"
| "js_strict_equals (Fin s a) (Fin t b) = (a = b \<and> (s = t \<or> a = 0))"
| "js_strict_equals x y = (x = y)"

section \<open>Values, the form and the host\<close>

text \<open>
  A field of the document holds any JavaScript value; the document itself is an object,
  a finite map from property names to values, and reading a property that is not there
  gives \<open>undefined\<close>.
\<close>

datatype jsval = JUndefined | JNull | JBool bool | JStr string | JNum jsnum

type_synonym jsobject = "string \<rightharpoonup> jsval"

definition js_get :: "jsobject \<Rightarrow> string \<Rightarrow> jsval" where
  "js_get obj k = (case obj k of None \<Rightarrow> JUndefined | Some v \<Rightarrow> v)"

text \<open>
  The object a query function returns, \<open>{filters: {...}}\<close>, and the form: its document
  \<open>frm.doc\<close> and the query functions installed on its link fields. A query function is
  a closure over \<open>frm\<close> that reads \<open>frm.doc\<close> when it is called, so it takes the
  document of that moment.
\<close>

record query =
  filters :: "(string \<times> jsval) list"

record frm =
  doc :: jsobject
  queries :: "string \<rightharpoonup> (jsobject \<Rightarrow> query)"

text \<open>The host's reading of a text as a number; \<open>None\<close> when the text is not numeric.\<close>

type_synonym parser = "string \<Rightarrow> jsnum option"

text \<open>
  Modelled from the spec: \<open>flt\<close>, the host framework's numeric coercion, is not part of
  the script. ``Each is coerced to a floating-point numeric value; non-numeric or absent
  input coerces to zero (treat missing/blank/non-numeric as 0).''
\<close>

definition flt :: "parser \<Rightarrow> jsval \<Rightarrow> jsnum" where
  "flt parse v =
     (case v of
        JNum x \<Rightarrow> x
      | JStr s \<Rightarrow> (if s = [] then num_lit 0
                  else case parse s of Some x \<Rightarrow> x | None \<Rightarrow> num_lit 0)
      | _ \<Rightarrow> num_lit 0)"

text \<open>
  Modelled from the spec: \<open>frm.set_value\<close>, the host's field write, is not part of the
  script. ``Both derived fields are written back onto the same in-memory record,
  replacing any prior value.''
\<close>

definition set_value :: "string \<Rightarrow> jsval \<Rightarrow> frm \<Rightarrow> frm" where
  "set_value fieldname v frm = frm\<lparr>doc := (doc frm)(fieldname \<mapsto> v)\<rparr>"

text \<open>
  Modelled from the spec: \<open>frm.set_query\<close> and the host's lookup are not part of the
  script. The host ``receives a filter predicate used to narrow selectable values for the
  field at lookup time'': the candidates of a link field are the entries that agree
  with every filter of the field's query, evaluated on the document as it is then; a field
  with no query offers every entry.
\<close>

definition set_query :: "string \<Rightarrow> (jsobject \<Rightarrow> query) \<Rightarrow> frm \<Rightarrow> frm" where
  "set_query fieldname q frm = frm\<lparr>queries := (queries frm)(fieldname \<mapsto> q)\<rparr>"

definition matches :: "(string \<times> jsval) list \<Rightarrow> jsobject \<Rightarrow> bool" where
  "matches fs entry = list_all (\<lambda>(k, v). js_get entry k = v) fs"

definition lookup_candidates :: "frm \<Rightarrow> string \<Rightarrow> jsobject list \<Rightarrow> jsobject list" where
  "lookup_candidates frm fieldname entries =
     (case queries frm fieldname of
        None \<Rightarrow> entries
      | Some q \<Rightarrow> filter (matches (filters (q (doc frm)))) entries)"

section \<open>The form script\<close>

text \<open>
  \<^verbatim>\<open>const interest_amount = flt(frm.doc.approved_amount) * flt(frm.doc.interest) * flt(frm.doc.tenure)/100\<close>
  \<^verbatim>\<open>frm.set_value("interest_amount", interest_amount)\<close>
  \<^verbatim>\<open>frm.set_value("final_amount", interest_amount + flt(frm.doc.approved_amount))\<close>
  The second write reads \<open>approved_amount\<close> again, from the document the first write left.
\<close>

definition calculate_interest_amount :: "parser \<Rightarrow> frm \<Rightarrow> frm" where
  "calculate_interest_amount parse frm =
     (let interest_amount =
            js_div (js_mul (js_mul (flt parse (js_get (doc frm) ''approved_amount''))
                                   (flt parse (js_get (doc frm) ''interest'')))
                           (flt parse (js_get (doc frm) ''tenure'')))
                   (num_lit 100);
          frm1 = set_value ''interest_amount'' (JNum interest_amount) frm;
          frm2 = set_value ''final_amount''
                   (JNum (js_add interest_amount (flt parse (js_get (doc frm1) ''approved_amount''))))
                   frm1
      in frm2)"

text \<open>The handlers registered with \<open>frappe.ui.form.on("Interest Calculation", {...})\<close>.\<close>

definition approved_amount :: "parser \<Rightarrow> frm \<Rightarrow> frm" where
  "approved_amount parse frm = calculate_interest_amount parse frm"

definition interest :: "parser \<Rightarrow> frm \<Rightarrow> frm" where
  "interest parse frm = calculate_interest_amount parse frm"

definition tenure :: "parser \<Rightarrow> frm \<Rightarrow> frm" where
  "tenure parse frm = calculate_interest_amount parse frm"

definition setup_frm :: "frm \<Rightarrow> frm" where
  "setup_frm frm =
     set_query ''full_name'' (\<lambda>d. \<lparr>filters = [(''email'', js_get d ''email'')]\<rparr>) frm"

definition form_on :: "parser \<Rightarrow> (string \<times> (frm \<Rightarrow> frm)) list" where
  "form_on parse =
     [(''approved_amount'', approved_amount parse),
      (''interest'', interest parse),
      (''tenure'', tenure parse),
      (''setup'', setup_frm)]"

section \<open>Kinds of input and example documents\<close>

text \<open>
  Modelled from the spec: the inputs that count as ``missing, blank or non-numeric'':
  \<open>undefined\<close> (also what an absent property reads as) and \<open>null\<close>, the empty text, a
  text the host does not read as a number, and a value that is neither text nor number.
\<close>

fun not_numeric :: "parser \<Rightarrow> jsval \<Rightarrow> bool" where
  "not_numeric parse JUndefined = True"
| "not_numeric parse JNull = True"
| "not_numeric parse (JBool b) = True"
| "not_numeric parse (JStr s) = (s = [] \<or> parse s = None)"
| "not_numeric parse (JNum x) = False"

text \<open>A host parser that reads no text as a number.\<close>

definition parse_nothing :: parser where
  "parse_nothing s = None"

text \<open>
  A document as the editor holds it once the three inputs have the given values, with an
  applicant's name and email, and nothing computed yet.
\<close>

definition loan_doc :: "jsval \<Rightarrow> jsval \<Rightarrow> jsval \<Rightarrow> frm" where
  "loan_doc A I T =
     \<lparr>doc = [''full_name'' \<mapsto> JStr ''Asha'', ''email'' \<mapsto> JStr ''a@x.com'',
             ''approved_amount'' \<mapsto> A, ''interest'' \<mapsto> I, ''tenure'' \<mapsto> T],
      queries = Map.empty\<rparr>"

section \<open>Tolerance\<close>

text \<open>
  The magnitudes that round as normal doubles do, without overflow and without underflow;
  the magnitudes that stay so after three roundings; and \<open>within_roundings k x v\<close>: the value
  \<open>v\<close> is what \<open>k\<close> roundings can make of the exact \<open>x\<close>, each rounding moving a value by
  at most one part in \<open>2 ^ 53\<close>.
\<close>

definition normal_or_zero :: "rat \<Rightarrow> bool" where
  "normal_or_zero a = (a = 0 \<or> (power_int 2 (- 1022) \<le> a \<and> a \<le> 2 ^ 1023))"

definition safe_magnitude :: "rat \<Rightarrow> bool" where
  "safe_magnitude x = (x = 0 \<or> (power_int 2 (- 1021) \<le> x \<and> x \<le> 2 ^ 1022))"

definition within_roundings :: "nat \<Rightarrow> rat \<Rightarrow> rat \<Rightarrow> bool" where
  "within_roundings k x v = (x * (1 - 1 / 2 ^ 53) ^ k \<le> v \<and> v \<le> x * (1 + 1 / 2 ^ 53) ^ k)"

section \<open>Evaluating numbers\<close>

lemma bitlen_nonpos [simp]: "n \<le> 0 \<Longrightarrow> bitlen n = 0"
  by (simp add: bitlen.simps)

lemma bitlen_one [simp]: "bitlen 1 = Suc 0"
  by (subst bitlen.simps) simp

lemma bitlen_One [simp]: "bitlen (numeral Num.One) = Suc 0"
  by (subst bitlen.simps) simp

lemma bitlen_Bit0 [simp]: "bitlen (numeral (Num.Bit0 n)) = Suc (bitlen (numeral n))"
  by (subst bitlen.simps) simp

lemma bitlen_Bit1 [simp]: "bitlen (numeral (Num.Bit1 n)) = Suc (bitlen (numeral n))"
  by (subst bitlen.simps) simp

lemma floor_rat_numeral_div [simp]:
  "\<lfloor>numeral a / numeral b :: rat\<rfloor> = numeral a div numeral b"
  by (metis floor_divide_of_int_eq of_int_numeral)

lemma floor_rat_one_div [simp]:
  "\<lfloor>1 / numeral b :: rat\<rfloor> = 1 div numeral b"
  by (metis floor_divide_of_int_eq of_int_1 of_int_numeral)

lemmas round_eval = round_double_def ilog2_def round_half_even_def num_lit_def val_def Let_def

lemma round_double_zero [simp]: "round_double s 0 = Fin s 0"
  by (simp add: round_double_def)

lemma num_lit_zero [simp]: "num_lit 0 = Fin False 0"
  by (simp add: num_lit_def)

lemma num_lit_hundred [simp]: "num_lit 100 = Fin False 100"
  by (simp add: round_eval)

lemma val_zero: "val s 0 = 0"
  by (simp add: val_def)



text \<open>Rounding leaves a double alone, whichever way its sign and magnitude are given.\<close>

lemma round_double_signed:
  assumes "is_double (Fin t b)" and "val t b \<noteq> 0"
  shows "round_double (val t b < 0) \<bar>val t b\<bar> = Fin t b"
proof -
  from assms have b: "0 < b" and r: "round_double t b = Fin t b"
    by (auto simp: is_double_def val_def split: if_splits)
  from b have "(val t b < 0) = t" and "\<bar>val t b\<bar> = b"
    by (auto simp: val_def)
  with r show ?thesis by simp
qed

text \<open>A sum whose exact value is a double is that double (up to the sign of a zero).\<close>

lemma js_add_finite_to:
  assumes "is_double (Fin t b)" and "val u c + val v d = val t b"
  shows "js_strict_equals (js_add (Fin u c) (Fin v d)) (Fin t b)"
proof (cases "val t b = 0")
  case True
  with assms(1) have "b = 0" by (auto simp: is_double_def val_def split: if_splits)
  with True assms(2) show ?thesis by simp
next
  case False
  with assms show ?thesis by (simp add: round_double_signed)
qed


lemma js_mul_finite_left: "js_mul x y = Fin s m \<Longrightarrow> \<exists>t b. x = Fin t b"
  by (cases x; cases y) (auto split: if_splits)

section \<open>Rounding is what it should be\<close>

text \<open>
  \<open>ilog2\<close> is the binary exponent; a rounding in the normal range stays finite and moves
  the magnitude by at most one part in \<open>2 ^ 53\<close>; what rounding returns is a double, so
  the operators map doubles to doubles.
\<close>

lemma bitlen_pos: "0 < n \<Longrightarrow> 0 < bitlen n"
  by (subst bitlen.simps) simp

lemma bitlen_bounds: "0 < n \<Longrightarrow> 2 ^ (bitlen n - 1) \<le> n \<and> n < 2 ^ bitlen n"
proof (induction n rule: bitlen.induct)
  case (1 n)
  show ?case
  proof (cases "n = 1")
    case True
    then show ?thesis by simp
  next
    case False
    with "1.prems" have h: "0 < n div 2" by simp
    with "1.prems" "1.IH" have IH: "2 ^ (bitlen (n div 2) - 1) \<le> n div 2" "n div 2 < 2 ^ bitlen (n div 2)"
      by simp_all
    from "1.prems" have b: "bitlen n = Suc (bitlen (n div 2))"
      by (subst bitlen.simps) simp
    from bitlen_pos [OF h] have "(2::int) ^ bitlen (n div 2) = 2 * 2 ^ (bitlen (n div 2) - 1)"
      by (cases "bitlen (n div 2)") simp_all
    with IH(1) have lo: "2 ^ bitlen (n div 2) \<le> n" by linarith
    from IH(2) have "n < 2 * 2 ^ bitlen (n div 2)" by linarith
    with lo b show ?thesis by simp
  qed
qed

lemma two_powi_pos: "0 < power_int (2::rat) n"
  by (simp add: zero_less_power_int)

lemma two_powi_Suc: "power_int (2::rat) (n + 1) = 2 * power_int 2 n"
  by (simp add: power_int_add)

lemma ilog2_bounds:
  assumes "0 < a"
  shows "power_int 2 (ilog2 a) \<le> a \<and> a < power_int 2 (ilog2 a + 1)"
proof (cases "1 \<le> a")
  case True
  define n where "n = \<lfloor>a\<rfloor>"
  define k where "k = bitlen n - 1"
  from True have n: "0 < n" by (simp add: n_def)
  from bitlen_bounds [OF n] bitlen_pos [OF n]
  have b: "2 ^ k \<le> n" "n < 2 ^ Suc k" by (simp_all add: k_def)
  have i: "ilog2 a = int k" using True bitlen_pos [OF n] by (simp add: ilog2_def n_def k_def)
  from b(1) have "(2::rat) ^ k \<le> of_int n"
    by (metis of_int_le_iff of_int_numeral of_int_power)
  also have "\<dots> \<le> a" by (simp add: n_def)
  finally have lo: "(2::rat) ^ k \<le> a" .
  from b(2) have "n + 1 \<le> 2 ^ Suc k" by simp
  then have "of_int (n + 1) \<le> (2::rat) ^ Suc k"
    by (metis of_int_le_iff of_int_numeral of_int_power)
  moreover have "a < of_int (n + 1)" unfolding n_def using floor_correct [of a] by blast
  ultimately have hi: "a < (2::rat) ^ Suc k" by linarith
  have "power_int (2::rat) (int k) = 2 ^ k" by simp
  moreover have "power_int (2::rat) (int k + 1) = 2 ^ Suc k" by (simp add: power_int_add)
  ultimately show ?thesis using lo hi i by simp
next
  case False
  define b where "b = 1 / a"
  define n where "n = \<lfloor>b\<rfloor>"
  define k where "k = bitlen n - 1"
  from False assms have b1: "1 < b" by (simp add: b_def)
  then have n: "0 < n" by (simp add: n_def)
  from bitlen_bounds [OF n] bitlen_pos [OF n]
  have bb: "2 ^ k \<le> n" "n < 2 ^ Suc k" by (simp_all add: k_def)
  from bb(1) have "(2::rat) ^ k \<le> of_int n"
    by (metis of_int_le_iff of_int_numeral of_int_power)
  also have "\<dots> \<le> b" by (simp add: n_def)
  finally have lo: "(2::rat) ^ k \<le> b" .
  from bb(2) have "n + 1 \<le> 2 ^ Suc k" by simp
  then have "of_int (n + 1) \<le> (2::rat) ^ Suc k"
    by (metis of_int_le_iff of_int_numeral of_int_power)
  moreover have "b < of_int (n + 1)" unfolding n_def using floor_correct [of b] by blast
  ultimately have hi: "b < (2::rat) ^ Suc k" by linarith
  have a: "a = 1 / b" using assms by (simp add: b_def)
  have kk: "int (bitlen n) - 1 = int k" using bitlen_pos [OF n] by (simp add: k_def)
  show ?thesis
  proof (cases "b = 2 ^ k")
    case True
    then have "ilog2 a = - int k"
      using False kk by (simp add: ilog2_def b_def n_def Let_def)
    moreover have "a = power_int 2 (- int k)"
      using True a by (simp add: power_int_minus divide_simps)
    ultimately show ?thesis
      using two_powi_Suc [of "- int k"] two_powi_pos [of "- int k"] by simp
  next
    case neq: False
    then have i: "ilog2 a = - int k - 1"
      using False kk by (simp add: ilog2_def b_def n_def Let_def)
    from neq lo have lo': "(2::rat) ^ k < b" by simp
    have "power_int 2 (- int k - 1) = 1 / (2::rat) ^ Suc k"
      by (simp add: power_int_diff power_int_minus divide_simps)
    moreover have "1 / (2::rat) ^ Suc k < 1 / b"
      using hi b1 by (simp add: frac_less2)
    moreover have "power_int 2 (- int k) = 1 / (2::rat) ^ k"
      by (simp add: power_int_minus divide_simps)
    moreover have "1 / b < 1 / (2::rat) ^ k"
      using lo' by (simp add: frac_less2)
    ultimately show ?thesis using i a by simp
  qed
qed

lemma round_half_even_error: "\<bar>of_int (round_half_even x) - x\<bar> \<le> 1 / 2"
proof -
  have "of_int \<lfloor>x\<rfloor> \<le> x" "x < of_int \<lfloor>x\<rfloor> + 1"
    using floor_correct [of x] by simp_all
  then show ?thesis
    by (auto simp: round_half_even_def Let_def abs_le_iff)
qed

lemma round_half_even_nonneg: "0 \<le> x \<Longrightarrow> 0 \<le> round_half_even x"
  by (auto simp: round_half_even_def Let_def)

lemma two_powi_mono: "m \<le> n \<Longrightarrow> power_int (2::rat) m \<le> power_int 2 n"
  by (simp add: power_int_increasing)

lemma two_powi_less_imp: "power_int (2::rat) m < power_int 2 n \<Longrightarrow> m < n"
  using two_powi_mono [of n m] by (cases "m < n") auto

lemma ilog2_ge:
  assumes "0 < a" and "power_int 2 k \<le> a"
  shows "k \<le> ilog2 a"
proof -
  from ilog2_bounds [OF assms(1)] assms(2) have "power_int (2::rat) k < power_int 2 (ilog2 a + 1)"
    by linarith
  then show ?thesis using two_powi_less_imp by fastforce
qed

lemma round_candidate_error:
  assumes "power_int 2 (- 1022) \<le> a"
  shows "max (ilog2 a - 52) (- 1074) = ilog2 a - 52"
    and "\<bar>of_int (round_half_even (a / power_int 2 (ilog2 a - 52))) * power_int 2 (ilog2 a - 52) - a\<bar>
           \<le> a / 2 ^ 53"
proof -
  from assms two_powi_pos [of "- 1022"] have a: "0 < a" by linarith
  define q where "q = ilog2 a - 52"
  from ilog2_ge [OF a assms] show "max (ilog2 a - 52) (- 1074) = ilog2 a - 52" by simp
  define x where "x = a / power_int 2 q"
  define m where "m = round_half_even x"
  have ax: "a = x * power_int 2 q"
    using two_powi_pos [of q] by (simp add: x_def)
  have "\<bar>of_int m * power_int 2 q - a\<bar> = \<bar>of_int m - x\<bar> * power_int 2 q"
    using two_powi_pos [of q] by (simp add: ax abs_mult flip: left_diff_distrib)
  also have "\<dots> \<le> (1 / 2) * power_int 2 q"
    using round_half_even_error [of x] two_powi_pos [of q]
    by (intro mult_right_mono) (simp_all add: m_def)
  also have "\<dots> = power_int 2 (ilog2 a) / 2 ^ 53"
    by (simp add: q_def power_int_diff)
  also have "\<dots> \<le> a / 2 ^ 53"
    using ilog2_bounds [OF a] by (simp add: divide_right_mono)
  finally show "\<bar>of_int (round_half_even (a / power_int 2 (ilog2 a - 52))) * power_int 2 (ilog2 a - 52) - a\<bar>
           \<le> a / 2 ^ 53"
    by (simp add: m_def x_def q_def)
qed

lemma round_double_normal:
  assumes "normal_or_zero a"
  shows "\<exists>v. round_double s a = Fin s v \<and> a * (1 - 1 / 2 ^ 53) \<le> v \<and> v \<le> a * (1 + 1 / 2 ^ 53)"
proof (cases "a = 0")
  case True
  then show ?thesis by simp
next
  case False
  with assms have lo: "power_int 2 (- 1022) \<le> a" and hi: "a \<le> 2 ^ 1023"
    by (simp_all add: normal_or_zero_def)
  define v :: rat where "v = of_int (round_half_even (a / power_int 2 (ilog2 a - 52))) * power_int 2 (ilog2 a - 52)"
  from round_candidate_error [OF lo] have mx: "max (ilog2 a - 52) (- 1074) = ilog2 a - 52"
    and err: "\<bar>v - a\<bar> \<le> a / 2 ^ 53"
    by (simp_all add: v_def)
  from err have "v - a \<le> a / 2 ^ 53" and "a - v \<le> a / 2 ^ 53"
    by linarith+
  then have b: "a * (1 - 1 / 2 ^ 53) \<le> v" "v \<le> a * (1 + 1 / 2 ^ 53)"
    by (simp_all add: algebra_simps)
  from b(2) hi have "v \<le> 2 ^ 1023 * (1 + 1 / 2 ^ 53)"
    by (meson mult_right_mono order_trans zero_le_one add_nonneg_nonneg zero_le_divide_iff zero_le_numeral zero_le_power)
  also have "\<dots> < (2::rat) ^ 1024" by simp
  finally have "\<not> 2 ^ 1024 \<le> v" by simp
  with False mx have "round_double s a = Fin s v"
    by (simp add: round_double_def Let_def v_def)
  with b show ?thesis by blast
qed

lemma round_half_even_of_int [simp]: "round_half_even (of_int n) = n"
  by (simp add: round_half_even_def)

lemma ilog2_less:
  assumes "0 < a" and "a < power_int 2 k"
  shows "ilog2 a < k"
proof -
  from ilog2_bounds [OF assms(1)] assms(2) have "power_int (2::rat) (ilog2 a) < power_int 2 k"
    by linarith
  then show ?thesis by (rule two_powi_less_imp)
qed

lemma two_powi_split:
  assumes "q' \<le> q"
  shows "power_int (2::rat) q = of_int (2 ^ nat (q - q')) * power_int 2 q'"
proof -
  have "power_int (2::rat) q = power_int 2 (q - q') * power_int 2 q'"
    by (simp flip: power_int_add)
  moreover have "power_int (2::rat) (q - q') = 2 ^ nat (q - q')"
    using assms by (simp add: power_int_def)
  ultimately show ?thesis by simp
qed

text \<open>What rounding returns is a double: rounding it again changes nothing.\<close>

lemma round_double_idem:
  assumes "round_double s a = Fin t v" and "0 \<le> a"
  shows "0 \<le> v \<and> round_double t v = Fin t v"
proof (cases "a = 0")
  case True
  with assms show ?thesis by simp
next
  case False
  with assms(2) have a: "0 < a" by simp
  define e where "e = ilog2 a"
  define q where "q = max (e - 52) (- 1074)"
  define x where "x = a / power_int 2 q"
  define m where "m = round_half_even x"
  from assms(1) False have v: "v = of_int m * power_int 2 q" and ts: "t = s"
    and fin: "\<not> 2 ^ 1024 \<le> v"
    by (auto simp: round_double_def Let_def x_def m_def q_def e_def split: if_splits)
  have x0: "0 < x" using a two_powi_pos [of q] by (simp add: x_def)
  then have m0: "0 \<le> m" using round_half_even_nonneg [of x] by (simp add: m_def)
  then have v0: "0 \<le> v" using two_powi_pos [of q] by (simp add: v)
  have xs: "x < 2 ^ 53"
  proof -
    have "a < power_int 2 (e + 1)" using ilog2_bounds [OF a] by (simp add: e_def)
    also have "\<dots> \<le> power_int 2 (q + 53)" by (intro two_powi_mono) (simp add: q_def)
    also have "\<dots> = 2 ^ 53 * power_int 2 q" by (simp add: power_int_add)
    finally show ?thesis using two_powi_pos [of q] by (simp add: x_def divide_simps)
  qed
  have ms: "m \<le> 2 ^ 53"
  proof -
    from round_half_even_error [of x] have "\<bar>of_int m - x\<bar> \<le> 1 / 2" by (simp only: m_def)
    then have "of_int m \<le> x + 1 / 2" by linarith
    with xs have "(of_int m :: rat) < of_int (2 ^ 53 + 1)" by simp
    then have "m < 2 ^ 53 + 1" by (simp only: of_int_less_iff)
    then show ?thesis by simp
  qed
  show ?thesis
  proof (cases "m = 0")
    case True
    then show ?thesis by (simp add: v)
  next
    case m: False
    with m0 have mp: "0 < m" by simp
    then have vp: "0 < v" using two_powi_pos [of q] by (simp add: v)
    define e' where "e' = ilog2 v"
    define q' where "q' = max (e' - 52) (- 1074)"
    have qq: "q' \<le> q \<or> (m = 2 ^ 53 \<and> q' = q + 1)"
    proof (cases "m = 2 ^ 53")
      case True
      then have "v = power_int 2 (q + 53)" by (simp add: v power_int_add)
      then have "power_int 2 (q + 53) \<le> v" "v < power_int 2 (q + 54)"
        using two_powi_Suc [of "q + 53"] two_powi_pos [of "q + 53"] by (simp_all add: add.commute)
      with ilog2_ge [OF vp] ilog2_less [OF vp] have "e' = q + 53" unfolding e'_def by fastforce
      then have "q' = q + 1" by (simp add: q'_def q_def)
      with True show ?thesis by simp
    next
      case False
      with ms have "m + 1 \<le> 2 ^ 53" by simp
      then have "(of_int (m + 1) :: rat) \<le> of_int (2 ^ 53)" by (simp only: of_int_le_iff)
      then have "(of_int m :: rat) < 2 ^ 53" by simp
      then have "v < 2 ^ 53 * power_int 2 q"
        using two_powi_pos [of q] by (simp add: v)
      also have "\<dots> = power_int 2 (q + 53)" by (simp add: power_int_add)
      finally have "e' < q + 53" unfolding e'_def by (rule ilog2_less [OF vp])
      then have "q' \<le> q" by (simp add: q'_def q_def)
      then show ?thesis by simp
    qed
    have "\<exists>n. v = of_int n * power_int 2 q'"
    proof -
      from qq show ?thesis
      proof
        assume "q' \<le> q"
        from two_powi_split [OF this] have "v = of_int (m * 2 ^ nat (q - q')) * power_int 2 q'"
          by (simp add: v)
        then show ?thesis by blast
      next
        assume "m = 2 ^ 53 \<and> q' = q + 1"
        then have "v = of_int (2 ^ 52) * power_int 2 q'"
          by (simp add: v power_int_add)
        then show ?thesis by blast
      qed
    qed
    then obtain n where n: "v = of_int n * power_int 2 q'" by blast
    then have "v / power_int 2 q' = of_int n" using two_powi_pos [of q'] by simp
    then have "of_int (round_half_even (v / power_int 2 q')) * power_int 2 q' = v"
      using n by simp
    with fin vp have "round_double t v = Fin t v"
      by (simp add: round_double_def Let_def q'_def e'_def)
    with v0 show ?thesis by simp
  qed
qed

lemma is_double_simps [simp]:
  "is_double NaN" "is_double (Infinity s)" "is_double (Fin s 0)"
  by (simp_all add: is_double_def)

lemma is_double_nonneg: "is_double (Fin s a) \<Longrightarrow> 0 \<le> a"
  by (simp add: is_double_def)

lemma is_double_round_double [simp]: "0 \<le> a \<Longrightarrow> is_double (round_double s a)"
proof (cases "round_double s a")
  case (Fin t v)
  assume "0 \<le> a"
  with round_double_idem [OF Fin] Fin show ?thesis by (simp add: is_double_def)
qed simp_all

lemma is_double_js_mul: "is_double x \<Longrightarrow> is_double y \<Longrightarrow> is_double (js_mul x y)"
  by (cases x; cases y) (auto dest!: is_double_nonneg)

lemma is_double_js_div: "is_double x \<Longrightarrow> is_double y \<Longrightarrow> is_double (js_div x y)"
  by (cases x; cases y) (auto dest!: is_double_nonneg)

lemma is_double_js_add: "is_double x \<Longrightarrow> is_double y \<Longrightarrow> is_double (js_add x y)"
  by (cases x; cases y) (auto simp: Let_def)

section \<open>What one recalculation writes\<close>

lemma calculate_interest_amount_interest_field:
  "doc (calculate_interest_amount parse frm) ''interest_amount'' =
     Some (JNum (js_div (js_mul (js_mul (flt parse (js_get (doc frm) ''approved_amount''))
                                        (flt parse (js_get (doc frm) ''interest'')))
                                (flt parse (js_get (doc frm) ''tenure'')))
                        (num_lit 100)))"
  by (simp add: calculate_interest_amount_def set_value_def Let_def)

lemma calculate_interest_amount_final_field:
  "doc (calculate_interest_amount parse frm) ''final_amount'' =
     Some (JNum (js_add
        (js_div (js_mul (js_mul (flt parse (js_get (doc frm) ''approved_amount''))
                                (flt parse (js_get (doc frm) ''interest'')))
                        (flt parse (js_get (doc frm) ''tenure'')))
                (num_lit 100))
        (flt parse (js_get (doc frm) ''approved_amount''))))"
  by (simp add: calculate_interest_amount_def set_value_def Let_def js_get_def)

lemma calculate_interest_amount_other_field:
  "k \<noteq> ''interest_amount'' \<Longrightarrow> k \<noteq> ''final_amount'' \<Longrightarrow>
     doc (calculate_interest_amount parse frm) k = doc frm k"
  by (simp add: calculate_interest_amount_def set_value_def Let_def)

lemma calculate_interest_amount_queries:
  "queries (calculate_interest_amount parse frm) = queries frm"
  by (simp add: calculate_interest_amount_def set_value_def Let_def)

lemma flt_number [simp]: "flt parse (JNum x) = x"
  by (simp add: flt_def)

lemma js_get_Some [simp]: "obj k = Some v \<Longrightarrow> js_get obj k = v"
  by (simp add: js_get_def)

lemma flt_not_numeric: "not_numeric parse v \<Longrightarrow> flt parse v = Fin False 0"
  by (cases v) (auto simp: flt_def)

lemma js_get_set_value:
  "js_get (doc (set_value f v frm)) k = (if k = f then v else js_get (doc frm) k)"
  by (simp add: set_value_def js_get_def)

lemma matches_single: "matches [(k, v)] = (\<lambda>entry. js_get entry k = v)"
  by (rule ext) (simp add: matches_def)

text \<open>The events the script listens to, and the three change handlers: the recalculation.\<close>

lemma form_on_events:
  "map fst (form_on parse) = [''approved_amount'', ''interest'', ''tenure'', ''setup'']"
  by (simp add: form_on_def)

lemma form_on_change_handlers:
  "map_of (form_on parse) ''approved_amount'' = Some (approved_amount parse) \<and>
   map_of (form_on parse) ''interest'' = Some (interest parse) \<and>
   map_of (form_on parse) ''tenure'' = Some (tenure parse) \<and>
   map_of (form_on parse) ''setup'' = Some setup_frm"
  by (simp add: form_on_def)

lemma change_handlers_recalculate:
  "approved_amount parse frm = calculate_interest_amount parse frm \<and>
   interest parse frm = calculate_interest_amount parse frm \<and>
   tenure parse frm = calculate_interest_amount parse frm"
  by (simp add: approved_amount_def interest_def tenure_def)

section \<open>The recalculation within floating-point tolerance\<close>

lemma ulp_cube_lower: "1 / 2 \<le> (1 - 1 / 2 ^ 53 :: rat) ^ 3"
  by (simp add: power_divide)

lemma ulp_cube_upper: "(1 + 1 / 2 ^ 53 :: rat) ^ 3 \<le> 2"
  by (simp add: power_divide)

lemma safe_magnitude_near:
  assumes "safe_magnitude E"
    and "E * (1 - 1 / 2 ^ 53) ^ 3 \<le> x" and "x \<le> E * (1 + 1 / 2 ^ 53) ^ 3"
  shows "normal_or_zero x"
proof (cases "E = 0")
  case True
  with assms(2,3) show ?thesis by (simp add: normal_or_zero_def)
next
  case False
  with assms(1) have lo: "power_int 2 (- 1021) \<le> E" and hi: "E \<le> 2 ^ 1022"
    by (simp_all add: safe_magnitude_def)
  from lo two_powi_pos [of "- 1021"] have E: "0 < E" by linarith
  have "E * (1 / 2) \<le> E * (1 - 1 / 2 ^ 53) ^ 3"
    using E ulp_cube_lower by (intro mult_left_mono) simp_all
  then have "E / 2 \<le> E * (1 - 1 / 2 ^ 53) ^ 3" by simp
  with assms(2) have "E / 2 \<le> x" by linarith
  moreover have "power_int (2::rat) (- 1022) = power_int 2 (- 1021) / 2"
    using two_powi_Suc [of "- 1022"] by simp
  ultimately have l: "power_int 2 (- 1022) \<le> x" using lo by linarith
  have "E * (1 + 1 / 2 ^ 53) ^ 3 \<le> E * 2"
    using E ulp_cube_upper by (intro mult_left_mono) simp_all
  with assms(3) hi have "x \<le> 2 ^ 1022 * 2" by linarith
  then have "x \<le> 2 ^ 1023" by simp
  with l show ?thesis by (simp add: normal_or_zero_def)
qed

lemma within_roundings_refl: "within_roundings 0 x x"
  by (simp add: within_roundings_def)

lemma within_roundings_mult:
  "0 \<le> c \<Longrightarrow> within_roundings k x v \<Longrightarrow> within_roundings k (x * c) (v * c)"
  using mult_right_mono [of "x * (1 - 1 / 2 ^ 53) ^ k" v c]
    mult_right_mono [of v "x * (1 + 1 / 2 ^ 53) ^ k" c]
  by (simp add: within_roundings_def mult.assoc mult.commute mult.left_commute)

lemma within_roundings_step:
  assumes "0 \<le> x" and "within_roundings k x y" and "within_roundings 1 y v"
  shows "within_roundings (Suc k) x v"
proof -
  have l: "(0::rat) \<le> 1 - 1 / 2 ^ 53" and h: "(0::rat) \<le> 1 + 1 / 2 ^ 53" by simp_all
  from assms(2) have "x * (1 - 1 / 2 ^ 53) ^ k * (1 - 1 / 2 ^ 53) \<le> y * (1 - 1 / 2 ^ 53)"
    by (intro mult_right_mono l) (simp add: within_roundings_def)
  moreover from assms(2) have "y * (1 + 1 / 2 ^ 53) \<le> x * (1 + 1 / 2 ^ 53) ^ k * (1 + 1 / 2 ^ 53)"
    by (intro mult_right_mono h) (simp add: within_roundings_def)
  ultimately show ?thesis using assms(3)
    by (simp add: within_roundings_def mult.assoc)
qed

lemma within_roundings_mono:
  assumes "0 \<le> x" and "j \<le> k" and "within_roundings j x v"
  shows "within_roundings k x v"
proof -
  have "(1 - 1 / 2 ^ 53 :: rat) ^ k \<le> (1 - 1 / 2 ^ 53) ^ j"
    using assms(2) by (intro power_decreasing) simp_all
  then have "x * (1 - 1 / 2 ^ 53) ^ k \<le> x * (1 - 1 / 2 ^ 53) ^ j"
    using assms(1) by (rule mult_left_mono)
  moreover have "(1 + 1 / 2 ^ 53 :: rat) ^ j \<le> (1 + 1 / 2 ^ 53) ^ k"
    using assms(2) by (intro power_increasing) simp_all
  then have "x * (1 + 1 / 2 ^ 53) ^ j \<le> x * (1 + 1 / 2 ^ 53) ^ k"
    using assms(1) by (rule mult_left_mono)
  ultimately show ?thesis using assms(3) by (simp add: within_roundings_def)
qed

lemma within_roundings_nonneg: "0 \<le> x \<Longrightarrow> within_roundings k x v \<Longrightarrow> 0 \<le> v"
proof -
  assume "0 \<le> x" and w: "within_roundings k x v"
  then have "0 \<le> x * (1 - 1 / 2 ^ 53) ^ k" by simp
  with w show ?thesis by (simp add: within_roundings_def)
qed

lemma round_double_within:
  assumes "normal_or_zero a"
  shows "\<exists>v. round_double s a = Fin s v \<and> within_roundings 1 a v"
  using round_double_normal [OF assms] by (simp add: within_roundings_def)

lemma safe_magnitude_within:
  assumes "safe_magnitude x" and "0 \<le> x" and "k \<le> 3" and "within_roundings k x y"
  shows "normal_or_zero y"
proof -
  from within_roundings_mono [OF assms(2,3,4)] have "within_roundings 3 x y" .
  with assms(1) show ?thesis
    by (intro safe_magnitude_near [of x]) (simp_all add: within_roundings_def)
qed

lemma is_double_grid:
  assumes "is_double (Fin s a)"
  shows "\<exists>n. a = of_int n * power_int 2 (- 1074)"
proof (cases "a = 0")
  case True
  then have "a = of_int 0 * power_int 2 (- 1074)" by simp
  then show ?thesis by blast
next
  case False
  define q where "q = max (ilog2 a - 52) (- 1074)"
  define m where "m = round_half_even (a / power_int 2 q)"
  from assms False have "a = of_int m * power_int 2 q"
    by (auto simp: is_double_def round_double_def Let_def q_def m_def split: if_splits)
  moreover have "- 1074 \<le> q" by (simp add: q_def)
  ultimately have "a = of_int (m * 2 ^ nat (q - (- 1074))) * power_int 2 (- 1074)"
    using two_powi_split [of "- 1074" q] by simp
  then show ?thesis by blast
qed

lemma round_double_grid_exact:
  assumes "0 < x" and "x < power_int 2 (- 1022)" and "x = of_int n * power_int 2 (- 1074)"
  shows "round_double s x = Fin s x"
proof -
  from ilog2_less [OF assms(1,2)] have q: "max (ilog2 x - 52) (- 1074) = - 1074" by simp
  from assms(3) have "x / power_int 2 (- 1074) = of_int n"
    using two_powi_pos [of "- 1074"] by simp
  then have v: "of_int (round_half_even (x / power_int 2 (- 1074))) * power_int 2 (- 1074) = x"
    using assms(3) by simp
  have "power_int (2::rat) (- 1022) \<le> power_int 2 1024" by (intro two_powi_mono) simp
  with assms(2) have "\<not> 2 ^ 1024 \<le> x" by simp
  with assms(1) q v show ?thesis by (simp add: round_double_def Let_def)
qed

lemma within_roundings_self: "0 \<le> x \<Longrightarrow> within_roundings k x x"
  using within_roundings_mono [of x 0 k x] by (simp add: within_roundings_refl)

text \<open>A sum of two doubles that does not overflow is within one rounding of the exact sum.\<close>

lemma js_add_within:
  assumes "is_double (Fin s a)" and "is_double (Fin t b)" and "a + b \<le> 2 ^ 1023"
  shows "\<exists>u f. js_add (Fin s a) (Fin t b) = Fin u f \<and>
               within_roundings 1 \<bar>val s a + val t b\<bar> f \<and>
               (val s a + val t b = 0 \<or> u = (val s a + val t b < 0))"
proof -
  define r where "r = val s a + val t b"
  from assms(1,2) have nn: "0 \<le> a" "0 \<le> b" by (auto dest: is_double_nonneg)
  then have rb: "\<bar>r\<bar> \<le> a + b" by (auto simp: r_def val_def)
  show ?thesis
  proof (cases "r = 0")
    case True
    then have "js_add (Fin s a) (Fin t b) = Fin (s \<and> t) 0" by (simp add: r_def)
    with True show ?thesis by (auto simp: r_def within_roundings_def)
  next
    case False
    then have add: "js_add (Fin s a) (Fin t b) = round_double (r < 0) \<bar>r\<bar>"
      by (simp add: r_def Let_def)
    have "\<exists>f. round_double (r < 0) \<bar>r\<bar> = Fin (r < 0) f \<and> within_roundings 1 \<bar>r\<bar> f"
    proof (cases "\<bar>r\<bar> < power_int 2 (- 1022)")
      case True
      from is_double_grid [OF assms(1)] is_double_grid [OF assms(2)]
      obtain n1 n2 where n: "a = of_int n1 * power_int 2 (- 1074)" "b = of_int n2 * power_int 2 (- 1074)"
        by blast
      have "r = of_int ((if s then - n1 else n1) + (if t then - n2 else n2)) * power_int 2 (- 1074)"
        by (simp add: r_def val_def n algebra_simps)
      then have "\<bar>r\<bar> = of_int \<bar>(if s then - n1 else n1) + (if t then - n2 else n2)\<bar> * power_int 2 (- 1074)"
        using two_powi_pos [of "- 1074"] by (simp only: abs_mult of_int_abs)
      from round_double_grid_exact [OF _ True this] False
      have "round_double (r < 0) \<bar>r\<bar> = Fin (r < 0) \<bar>r\<bar>" by simp
      then show ?thesis using within_roundings_self [of "\<bar>r\<bar>" 1] by auto
    next
      case False
      with rb assms(3) have "normal_or_zero \<bar>r\<bar>" by (simp add: normal_or_zero_def)
      from round_double_within [OF this] show ?thesis .
    qed
    with add False show ?thesis by (auto simp: r_def)
  qed
qed

text \<open>On a form whose three inputs coerce to doubles, both numbers written are doubles.\<close>

lemma calculate_interest_amount_writes_doubles:
  assumes "is_double (flt parse (js_get (doc frm) ''approved_amount''))"
    and "is_double (flt parse (js_get (doc frm) ''interest''))"
    and "is_double (flt parse (js_get (doc frm) ''tenure''))"
  shows "\<exists>x y. doc (calculate_interest_amount parse frm) ''interest_amount'' = Some (JNum x) \<and>
               doc (calculate_interest_amount parse frm) ''final_amount'' = Some (JNum y) \<and>
               is_double x \<and> is_double y"
proof -
  have "is_double (num_lit 100)" by (simp add: is_double_def round_eval)
  with assms show ?thesis
    by (simp add: calculate_interest_amount_interest_field calculate_interest_amount_final_field
        is_double_js_mul is_double_js_div is_double_js_add
        del: js_add.simps js_mul.simps js_div.simps num_lit_hundred)
qed

text \<open>Well-known facts of double arithmetic, as a check of the number model.\<close>

lemma number_model_examples:
  "num_lit 0.1 = Fin False (3602879701896397 / 2 ^ 55)"
  "js_add (num_lit 0.1) (num_lit 0.2) = num_lit 0.30000000000000004"
  "\<not> js_strict_equals (js_add (num_lit 0.1) (num_lit 0.2)) (num_lit 0.3)"
  "js_add (num_lit 9007199254740992) (num_lit 1) = num_lit 9007199254740992"
  "js_add (num_lit 9007199254740992) (num_lit 3) = num_lit 9007199254740996"
  "js_div (num_lit 1) (num_lit 3) = Fin False (6004799503160661 / 2 ^ 54)"
  "js_div (num_lit 1) (num_lit 0) = Infinity False"
  "js_div (num_lit 0) (num_lit 0) = NaN"
  "js_mul (num_lit (10 ^ 200)) (num_lit (10 ^ 200)) = Infinity False"
  "js_mul (Infinity False) (num_lit 0) = NaN"
  "num_lit (17976931348623157 * 10 ^ 292) = Fin False ((2 ^ 53 - 1) * 2 ^ 971)"
  "num_lit (18 * 10 ^ 307) = Infinity False"
  "num_lit (5 / 10 ^ 324) = Fin False (1 / 2 ^ 1074)"
  "num_lit (2 / 10 ^ 324) = Fin False 0"
  by (simp_all add: round_eval)

section \<open>Properties of the script\<close>

text \<open>
  C1, as stated, does not hold for every numeric record: the script evaluates
  \<open>A * I * T / 100\<close> left to right in doubles, and an intermediate result can leave their
  range although the value of the formula does not. For \<open>A = I = 2 ^ 600\<close> and
  \<open>T = 1 / 2 ^ 600\<close> the first product overflows and both fields are \<open>Infinity\<close>, the
  formula's value being \<open>2 ^ 600 / 100\<close>; with \<open>T = 0\<close> instead both fields are \<open>NaN\<close>, the
  formula's value being \<open>0\<close>; for \<open>A = I = 1 / 2 ^ 600\<close> and \<open>T = 2 ^ 600\<close> the first product
  underflows and \<open>interest_amount\<close> is \<open>0\<close>, the formula's value being \<open>1 / (100 * 2 ^ 600)\<close>.
\<close>

theorem formula_value_counterexample:
  "is_double (Fin False (2 ^ 600)) \<and> is_double (Fin False (1 / 2 ^ 600)) \<and>
   safe_magnitude (2 ^ 600 * 2 ^ 600 * (1 / 2 ^ 600) / 100) \<and>
   doc (calculate_interest_amount parse_nothing
          (loan_doc (JNum (Fin False (2 ^ 600))) (JNum (Fin False (2 ^ 600)))
             (JNum (Fin False (1 / 2 ^ 600)))))
       ''interest_amount'' = Some (JNum (Infinity False)) \<and>
   doc (calculate_interest_amount parse_nothing
          (loan_doc (JNum (Fin False (2 ^ 600))) (JNum (Fin False (2 ^ 600)))
             (JNum (Fin False (1 / 2 ^ 600)))))
       ''final_amount'' = Some (JNum (Infinity False)) \<and>
   \<not> js_strict_equals (Infinity False) (num_lit (2 ^ 600 * 2 ^ 600 * (1 / 2 ^ 600) / 100)) \<and>
   doc (calculate_interest_amount parse_nothing
          (loan_doc (JNum (Fin False (2 ^ 600))) (JNum (Fin False (2 ^ 600)))
             (JNum (Fin False 0))))
       ''interest_amount'' = Some (JNum NaN) \<and>
   doc (calculate_interest_amount parse_nothing
          (loan_doc (JNum (Fin False (2 ^ 600))) (JNum (Fin False (2 ^ 600)))
             (JNum (Fin False 0))))
       ''final_amount'' = Some (JNum NaN) \<and>
   \<not> js_strict_equals NaN (num_lit (2 ^ 600 * 2 ^ 600 * 0 / 100)) \<and>
   safe_magnitude (1 / 2 ^ 600 * (1 / 2 ^ 600) * 2 ^ 600 / 100) \<and>
   doc (calculate_interest_amount parse_nothing
          (loan_doc (JNum (Fin False (1 / 2 ^ 600))) (JNum (Fin False (1 / 2 ^ 600)))
             (JNum (Fin False (2 ^ 600)))))
       ''interest_amount'' = Some (JNum (Fin False 0)) \<and>
   \<not> js_strict_equals (Fin False 0) (num_lit (1 / 2 ^ 600 * (1 / 2 ^ 600) * 2 ^ 600 / 100)) \<and>
   \<not> within_roundings 3 (1 / 2 ^ 600 * (1 / 2 ^ 600) * 2 ^ 600 / 100) 0"
  by (simp add: calculate_interest_amount_interest_field calculate_interest_amount_final_field
      loan_doc_def js_get_def is_double_def safe_magnitude_def within_roundings_def round_eval)

text \<open>
  C1, amended. On a record whose \<open>approved_amount\<close>, \<open>interest\<close> and \<open>tenure\<close> are numbers
  of magnitudes \<open>a\<close>, \<open>i\<close> and \<open>t\<close> (of any sign) such that \<open>a * i\<close>, \<open>a * i * t\<close> and
  \<open>a * i * t / 100\<close> are zero or lie between \<open>2 powi - 1021\<close> and \<open>2 ^ 1022\<close>, and
  \<open>a * i * t / 100 + a\<close> is at most \<open>2 ^ 1022\<close>, \<open>calculate_interest_amount\<close> sets
  \<open>interest_amount\<close> to \<open>A * I * T / 100\<close> within floating-point tolerance (the sign of the
  product, and a magnitude within three roundings of \<open>a * i * t / 100\<close>) and \<open>final_amount\<close>
  to \<open>interest_amount + A\<close> within one rounding, a rounding moving a value by at most one
  part in \<open>2 ^ 53\<close>.
\<close>

theorem calculate_interest_amount_within_tolerance:
  assumes A: "doc frm ''approved_amount'' = Some (JNum (Fin sa a))"
    and I: "doc frm ''interest'' = Some (JNum (Fin si i))"
    and T: "doc frm ''tenure'' = Some (JNum (Fin st t))"
    and doubles: "is_double (Fin sa a)" "is_double (Fin si i)" "is_double (Fin st t)"
    and safe: "safe_magnitude (a * i)" "safe_magnitude (a * i * t)"
      "safe_magnitude (a * i * t / 100)" "a * i * t / 100 + a \<le> 2 ^ 1022"
  shows "\<exists>p u f.
           doc (calculate_interest_amount parse frm) ''interest_amount'' =
             Some (JNum (Fin ((sa \<noteq> si) \<noteq> st) p)) \<and>
           within_roundings 3 (a * i * t / 100) p \<and>
           doc (calculate_interest_amount parse frm) ''final_amount'' = Some (JNum (Fin u f)) \<and>
           within_roundings 1 \<bar>val ((sa \<noteq> si) \<noteq> st) p + val sa a\<bar> f \<and>
           (val ((sa \<noteq> si) \<noteq> st) p + val sa a = 0 \<or>
            u = (val ((sa \<noteq> si) \<noteq> st) p + val sa a < 0))"
proof -
  from doubles have nonneg: "0 \<le> a" "0 \<le> i" "0 \<le> t"
    by (auto dest: is_double_nonneg)
  have ai: "0 \<le> a * i" and ait: "0 \<le> a * i * t" and E: "0 \<le> a * i * t / 100"
    using nonneg by simp_all
  define s where "s = ((sa \<noteq> si) \<noteq> st)"
  \<comment> \<open>the first product\<close>
  from safe_magnitude_within [OF safe(1) ai _ within_roundings_refl]
  have "normal_or_zero (a * i)" by simp
  from round_double_within [OF this] obtain p1 where
    p1: "round_double (sa \<noteq> si) (a * i) = Fin (sa \<noteq> si) p1" "within_roundings 1 (a * i) p1"
    by blast
  \<comment> \<open>the second product\<close>
  from within_roundings_mult [OF nonneg(3) p1(2)]
  have w2: "within_roundings 1 (a * i * t) (p1 * t)" .
  from safe_magnitude_within [OF safe(2) ait _ w2]
  have "normal_or_zero (p1 * t)" by simp
  from round_double_within [OF this] obtain p2 where
    p2: "round_double s (p1 * t) = Fin s p2" "within_roundings 1 (p1 * t) p2"
    by blast
  from within_roundings_step [OF ait w2 p2(2)]
  have w2': "within_roundings 2 (a * i * t) p2" by (simp add: numeral_2_eq_2)
  from within_roundings_nonneg [OF ait w2'] have p2n: "0 \<le> p2" .
  \<comment> \<open>the quotient\<close>
  from within_roundings_mult [OF _ w2', of "1 / 100"]
  have w3: "within_roundings 2 (a * i * t / 100) (p2 / 100)" by simp
  from safe_magnitude_within [OF safe(3) E _ w3]
  have "normal_or_zero (p2 / 100)" by simp
  from round_double_within [OF this] obtain p3 where
    p3: "round_double s (p2 / 100) = Fin s p3" "within_roundings 1 (p2 / 100) p3"
    by blast
  from within_roundings_step [OF E w3 p3(2)]
  have w3': "within_roundings 3 (a * i * t / 100) p3" by (simp add: numeral_3_eq_3)
  have ia: "js_div (js_mul (js_mul (Fin sa a) (Fin si i)) (Fin st t)) (num_lit 100) = Fin s p3"
    using p1(1) p2(1) p3(1) by (simp add: s_def)
  \<comment> \<open>the sum\<close>
  from round_double_idem [OF p3(1)] p2n have d3: "is_double (Fin s p3)"
    by (simp add: is_double_def)
  have "p3 \<le> a * i * t / 100 * 2"
  proof -
    have "a * i * t / 100 * (1 + 1 / 2 ^ 53) ^ 3 \<le> a * i * t / 100 * 2"
      using E ulp_cube_upper by (intro mult_left_mono) simp_all
    with w3' show ?thesis by (simp add: within_roundings_def)
  qed
  with safe(4) nonneg(1) E have "p3 + a \<le> 2 ^ 1023" by simp
  from js_add_within [OF d3 doubles(1) this] obtain u f where
    f: "js_add (Fin s p3) (Fin sa a) = Fin u f"
      "within_roundings 1 \<bar>val s p3 + val sa a\<bar> f"
      "val s p3 + val sa a = 0 \<or> u = (val s p3 + val sa a < 0)"
    by blast
  have "doc (calculate_interest_amount parse frm) ''interest_amount'' = Some (JNum (Fin s p3))"
    using ia A I T
    by (simp add: calculate_interest_amount_interest_field
        del: js_mul.simps js_div.simps num_lit_hundred)
  moreover have "doc (calculate_interest_amount parse frm) ''final_amount'' = Some (JNum (Fin u f))"
    using ia A I T f(1)
    by (simp add: calculate_interest_amount_final_field
        del: js_add.simps js_mul.simps js_div.simps num_lit_hundred)
  ultimately show ?thesis using w3' f(2,3) unfolding s_def by blast
qed

theorem calculate_interest_amount_within_tolerance_witness:
  "doc (loan_doc (JNum (Fin False 1500.5)) (JNum (Fin False 3.25)) (JNum (Fin False 4)))
     ''approved_amount'' = Some (JNum (Fin False 1500.5)) \<and>
   doc (loan_doc (JNum (Fin False 1500.5)) (JNum (Fin False 3.25)) (JNum (Fin False 4)))
     ''interest'' = Some (JNum (Fin False 3.25)) \<and>
   doc (loan_doc (JNum (Fin False 1500.5)) (JNum (Fin False 3.25)) (JNum (Fin False 4)))
     ''tenure'' = Some (JNum (Fin False 4)) \<and>
   is_double (Fin False 1500.5) \<and> is_double (Fin False 3.25) \<and> is_double (Fin False 4) \<and>
   safe_magnitude (1500.5 * 3.25) \<and> safe_magnitude (1500.5 * 3.25 * 4) \<and>
   safe_magnitude (1500.5 * 3.25 * 4 / 100) \<and> 1500.5 * 3.25 * 4 / 100 + 1500.5 \<le> (2::rat) ^ 1022 \<and>
   doc (calculate_interest_amount parse_nothing
          (loan_doc (JNum (Fin False 1500.5)) (JNum (Fin False 3.25)) (JNum (Fin False 4))))
     ''interest_amount'' = Some (JNum (Fin False (3431619770754007 / 17592186044416))) \<and>
   within_roundings 3 (1500.5 * 3.25 * 4 / 100) (3431619770754007 / 17592186044416) \<and>
   doc (calculate_interest_amount parse_nothing
          (loan_doc (JNum (Fin False 1500.5)) (JNum (Fin False 3.25)) (JNum (Fin False 4))))
     ''final_amount'' = Some (JNum (Fin False (3728586866300027 / 2199023255552))) \<and>
   within_roundings 1 \<bar>val False (3431619770754007 / 17592186044416) + val False 1500.5\<bar>
     (3728586866300027 / 2199023255552)"
proof -
  let ?frm = "loan_doc (JNum (Fin False 1500.5)) (JNum (Fin False 3.25)) (JNum (Fin False 4))"
  have A: "doc ?frm ''approved_amount'' = Some (JNum (Fin False 1500.5))"
    and I: "doc ?frm ''interest'' = Some (JNum (Fin False 3.25))"
    and T: "doc ?frm ''tenure'' = Some (JNum (Fin False 4))"
    by (simp_all add: loan_doc_def)
  have d: "is_double (Fin False 1500.5)" "is_double (Fin False 3.25)" "is_double (Fin False 4)"
    by (simp_all add: is_double_def round_eval)
  have s: "safe_magnitude (1500.5 * 3.25)" "safe_magnitude (1500.5 * 3.25 * 4)"
    "safe_magnitude (1500.5 * 3.25 * 4 / 100)" "1500.5 * 3.25 * 4 / 100 + 1500.5 \<le> (2::rat) ^ 1022"
    by (simp_all add: safe_magnitude_def)
  have ia: "doc (calculate_interest_amount parse_nothing ?frm) ''interest_amount'' =
              Some (JNum (Fin False (3431619770754007 / 17592186044416)))"
    using A I T by (simp add: calculate_interest_amount_interest_field round_eval)
  have fa: "doc (calculate_interest_amount parse_nothing ?frm) ''final_amount'' =
              Some (JNum (Fin False (3728586866300027 / 2199023255552)))"
    using A I T by (simp add: calculate_interest_amount_final_field round_eval)
  from calculate_interest_amount_within_tolerance [OF A I T d s, of parse_nothing]
  obtain p u f where
    c: "doc (calculate_interest_amount parse_nothing ?frm) ''interest_amount'' =
          Some (JNum (Fin ((False \<noteq> False) \<noteq> False) p))"
       "within_roundings 3 (1500.5 * 3.25 * 4 / 100) p"
       "doc (calculate_interest_amount parse_nothing ?frm) ''final_amount'' = Some (JNum (Fin u f))"
       "within_roundings 1 \<bar>val ((False \<noteq> False) \<noteq> False) p + val False 1500.5\<bar> f"
    by blast
  from c(1) ia have p: "p = 3431619770754007 / 17592186044416" by simp
  from c(3) fa have f: "f = 3728586866300027 / 2199023255552" by simp
  from c(2,4) p f have
    "within_roundings 3 (1500.5 * 3.25 * 4 / 100) (3431619770754007 / 17592186044416)"
    "within_roundings 1 \<bar>val False (3431619770754007 / 17592186044416) + val False 1500.5\<bar>
       (3728586866300027 / 2199023255552)"
    by simp_all
  with A I T d s ia fa show ?thesis by (simp only: simp_thms)
qed

text \<open>
  C6. The worked scenarios: \<open>A = 1000, I = 5, T = 2\<close> gives \<open>interest_amount = 100\<close> and
  \<open>final_amount = 1100\<close>; \<open>A = 2500, I = 0, T = 12\<close> gives \<open>0\<close> and \<open>2500\<close>;
  \<open>A = 1500.5, I = 3.25, T = 4\<close> gives \<open>195.065\<close> and \<open>1695.565\<close>, each number being the
  double its decimal literal denotes.
\<close>

theorem concrete_scenarios:
  "doc (calculate_interest_amount parse
          (loan_doc (JNum (num_lit 1000)) (JNum (num_lit 5)) (JNum (num_lit 2))))
       ''interest_amount'' = Some (JNum (num_lit 100)) \<and>
   doc (calculate_interest_amount parse
          (loan_doc (JNum (num_lit 1000)) (JNum (num_lit 5)) (JNum (num_lit 2))))
       ''final_amount'' = Some (JNum (num_lit 1100)) \<and>
   doc (calculate_interest_amount parse
          (loan_doc (JNum (num_lit 2500)) (JNum (num_lit 0)) (JNum (num_lit 12))))
       ''interest_amount'' = Some (JNum (num_lit 0)) \<and>
   doc (calculate_interest_amount parse
          (loan_doc (JNum (num_lit 2500)) (JNum (num_lit 0)) (JNum (num_lit 12))))
       ''final_amount'' = Some (JNum (num_lit 2500)) \<and>
   doc (calculate_interest_amount parse
          (loan_doc (JNum (num_lit 1500.5)) (JNum (num_lit 3.25)) (JNum (num_lit 4))))
       ''interest_amount'' = Some (JNum (num_lit 195.065)) \<and>
   doc (calculate_interest_amount parse
          (loan_doc (JNum (num_lit 1500.5)) (JNum (num_lit 3.25)) (JNum (num_lit 4))))
       ''final_amount'' = Some (JNum (num_lit 1695.565))"
  by (simp add: calculate_interest_amount_interest_field calculate_interest_amount_final_field
      loan_doc_def js_get_def round_eval)

text \<open>
  C5. \<open>calculate_interest_amount\<close> is idempotent: a second call right after the first
  leaves the form, and so \<open>interest_amount\<close> and \<open>final_amount\<close>, as the first left it.
\<close>

theorem calculate_interest_amount_idempotent:
  "calculate_interest_amount parse (calculate_interest_amount parse frm) =
     calculate_interest_amount parse frm"
  by (simp add: calculate_interest_amount_def set_value_def Let_def js_get_def)

text \<open>
  C7. \<open>calculate_interest_amount\<close> never fails: on every form, whatever its fields hold
  (nothing, text, NaN, infinities, negative or huge numbers), it returns, having written
  a number to \<open>interest_amount\<close> and a number to \<open>final_amount\<close>; no input is rejected.
\<close>

theorem calculate_interest_amount_total:
  "\<exists>x y. doc (calculate_interest_amount parse frm) ''interest_amount'' = Some (JNum x) \<and>
         doc (calculate_interest_amount parse frm) ''final_amount'' = Some (JNum y)"
  by (simp add: calculate_interest_amount_interest_field calculate_interest_amount_final_field)

text \<open>
  C8. \<open>calculate_interest_amount\<close> writes \<open>interest_amount\<close> and \<open>final_amount\<close> only: every
  other property of the document (\<open>approved_amount\<close>, \<open>interest\<close>, \<open>tenure\<close>, \<open>full_name\<close>,
  \<open>email\<close> and any further one) and the installed queries are as before the call.
\<close>

theorem calculate_interest_amount_frame:
  assumes "k \<noteq> ''interest_amount''" and "k \<noteq> ''final_amount''"
  shows "doc (calculate_interest_amount parse frm) k = doc frm k \<and>
         queries (calculate_interest_amount parse frm) = queries frm"
  using assms
  by (simp add: calculate_interest_amount_other_field calculate_interest_amount_queries)

theorem calculate_interest_amount_frame_witness:
  "''email'' \<noteq> ''interest_amount'' \<and> ''email'' \<noteq> ''final_amount'' \<and>
   doc (calculate_interest_amount parse_nothing
          (loan_doc (JNum (Fin False 200)) (JNum (Fin False 10)) (JNum (Fin False 3))))
       ''email'' = Some (JStr ''a@x.com'') \<and>
   queries (calculate_interest_amount parse_nothing
          (loan_doc (JNum (Fin False 200)) (JNum (Fin False 10)) (JNum (Fin False 3))))
       ''full_name'' = None"
  using calculate_interest_amount_frame
    [of "''email''" parse_nothing
        "loan_doc (JNum (Fin False 200)) (JNum (Fin False 10)) (JNum (Fin False 3))"]
  by (simp add: loan_doc_def)

text \<open>
  C10. The outputs of \<open>calculate_interest_amount\<close> depend on \<open>approved_amount\<close>, \<open>interest\<close>
  and \<open>tenure\<close> only: two forms that agree on these three, however they differ in
  \<open>full_name\<close>, \<open>email\<close> or the earlier \<open>interest_amount\<close> and \<open>final_amount\<close>, get the same
  \<open>interest_amount\<close> and the same \<open>final_amount\<close>.
\<close>

theorem calculate_interest_amount_inputs_only:
  assumes "js_get (doc frm1) ''approved_amount'' = js_get (doc frm2) ''approved_amount''"
    and "js_get (doc frm1) ''interest'' = js_get (doc frm2) ''interest''"
    and "js_get (doc frm1) ''tenure'' = js_get (doc frm2) ''tenure''"
  shows "doc (calculate_interest_amount parse frm1) ''interest_amount'' =
           doc (calculate_interest_amount parse frm2) ''interest_amount'' \<and>
         doc (calculate_interest_amount parse frm1) ''final_amount'' =
           doc (calculate_interest_amount parse frm2) ''final_amount''"
  using assms
  by (simp add: calculate_interest_amount_interest_field calculate_interest_amount_final_field)

theorem calculate_interest_amount_inputs_only_witness:
  "js_get (doc (loan_doc (JNum (Fin False 200)) (JNum (Fin False 10)) JNull)) ''approved_amount'' =
     js_get (doc (set_value ''email'' (JStr ''b@y.org'') (set_value ''final_amount'' (JNum (Fin False 7))
        (loan_doc (JNum (Fin False 200)) (JNum (Fin False 10)) JNull)))) ''approved_amount'' \<and>
   js_get (doc (loan_doc (JNum (Fin False 200)) (JNum (Fin False 10)) JNull)) ''interest'' =
     js_get (doc (set_value ''email'' (JStr ''b@y.org'') (set_value ''final_amount'' (JNum (Fin False 7))
        (loan_doc (JNum (Fin False 200)) (JNum (Fin False 10)) JNull)))) ''interest'' \<and>
   js_get (doc (loan_doc (JNum (Fin False 200)) (JNum (Fin False 10)) JNull)) ''tenure'' =
     js_get (doc (set_value ''email'' (JStr ''b@y.org'') (set_value ''final_amount'' (JNum (Fin False 7))
        (loan_doc (JNum (Fin False 200)) (JNum (Fin False 10)) JNull)))) ''tenure'' \<and>
   doc (loan_doc (JNum (Fin False 200)) (JNum (Fin False 10)) JNull) ''email'' \<noteq>
     doc (set_value ''email'' (JStr ''b@y.org'') (set_value ''final_amount'' (JNum (Fin False 7))
        (loan_doc (JNum (Fin False 200)) (JNum (Fin False 10)) JNull))) ''email'' \<and>
   doc (calculate_interest_amount parse_nothing
          (loan_doc (JNum (Fin False 200)) (JNum (Fin False 10)) JNull)) ''interest_amount'' =
     doc (calculate_interest_amount parse_nothing
          (set_value ''email'' (JStr ''b@y.org'') (set_value ''final_amount'' (JNum (Fin False 7))
             (loan_doc (JNum (Fin False 200)) (JNum (Fin False 10)) JNull)))) ''interest_amount'' \<and>
   doc (calculate_interest_amount parse_nothing
          (loan_doc (JNum (Fin False 200)) (JNum (Fin False 10)) JNull)) ''final_amount'' =
     doc (calculate_interest_amount parse_nothing
          (set_value ''email'' (JStr ''b@y.org'') (set_value ''final_amount'' (JNum (Fin False 7))
             (loan_doc (JNum (Fin False 200)) (JNum (Fin False 10)) JNull)))) ''final_amount''"
  using calculate_interest_amount_inputs_only
    [of "loan_doc (JNum (Fin False 200)) (JNum (Fin False 10)) JNull"
        "set_value ''email'' (JStr ''b@y.org'') (set_value ''final_amount'' (JNum (Fin False 7))
           (loan_doc (JNum (Fin False 200)) (JNum (Fin False 10)) JNull))"
        parse_nothing]
  by (simp add: loan_doc_def js_get_set_value set_value_def)

text \<open>
  C4. Once the \<open>setup\<close> handler has run, the candidates offered for \<open>full_name\<close> are
  exactly the entries whose \<open>email\<close> equals the \<open>email\<close> of the document as it is when the
  lookup is made (\<open>d\<close> below, whatever the document held when \<open>setup\<close> ran).
\<close>

theorem setup_full_name_filter:
  "lookup_candidates ((setup_frm frm)\<lparr>doc := d\<rparr>) ''full_name'' entries =
     filter (\<lambda>entry. js_get entry ''email'' = js_get d ''email'') entries"
  by (simp add: lookup_candidates_def setup_frm_def set_query_def matches_single)

text \<open>
  C3, as stated, does not hold. With \<open>tenure\<close> blank the formula is evaluated with \<open>0\<close> in
  its place, but the result need not be \<open>0\<close>: for \<open>approved_amount = 1e200\<close> and
  \<open>interest = 1e200\<close> the product overflows to \<open>Infinity\<close>, \<open>Infinity * 0\<close> is \<open>NaN\<close>, and both
  \<open>interest_amount\<close> and \<open>final_amount\<close> are \<open>NaN\<close>.
\<close>

theorem blank_tenure_counterexample:
  "not_numeric parse_nothing (JStr []) \<and>
   is_double (num_lit (10 ^ 200)) \<and>
   doc (calculate_interest_amount parse_nothing
          (loan_doc (JNum (num_lit (10 ^ 200))) (JNum (num_lit (10 ^ 200))) (JStr [])))
       ''interest_amount'' = Some (JNum NaN) \<and>
   doc (calculate_interest_amount parse_nothing
          (loan_doc (JNum (num_lit (10 ^ 200))) (JNum (num_lit (10 ^ 200))) (JStr [])))
       ''final_amount'' = Some (JNum NaN) \<and>
   \<not> js_strict_equals NaN (num_lit 0)"
  by (simp add: calculate_interest_amount_interest_field calculate_interest_amount_final_field
      loan_doc_def js_get_def flt_def is_double_def round_eval)

text \<open>
  C3, amended. When \<open>approved_amount\<close>, \<open>interest\<close> or \<open>tenure\<close> is missing, blank or
  non-numeric, \<open>calculate_interest_amount\<close> computes what it computes with that field set
  to \<open>0\<close>. For a blank \<open>tenure\<close> this makes \<open>interest_amount\<close> a zero and \<open>final_amount\<close>
  equal to the coerced \<open>approved_amount\<close> whenever \<open>approved_amount * interest\<close> is finite.
\<close>

theorem not_numeric_input_counts_as_zero:
  assumes "f = ''approved_amount'' \<or> f = ''interest'' \<or> f = ''tenure''"
    and "not_numeric parse (js_get (doc frm) f)"
  shows "doc (calculate_interest_amount parse frm) ''interest_amount'' =
           doc (calculate_interest_amount parse (set_value f (JNum (num_lit 0)) frm))
               ''interest_amount'' \<and>
         doc (calculate_interest_amount parse frm) ''final_amount'' =
           doc (calculate_interest_amount parse (set_value f (JNum (num_lit 0)) frm))
               ''final_amount'' \<and>
         (f = ''tenure'' \<and>
          js_mul (flt parse (js_get (doc frm) ''approved_amount''))
                 (flt parse (js_get (doc frm) ''interest'')) = Fin s m \<and>
          is_double (flt parse (js_get (doc frm) ''approved_amount'')) \<longrightarrow>
            doc (calculate_interest_amount parse frm) ''interest_amount'' =
              Some (JNum (Fin s 0)) \<and>
            doc (calculate_interest_amount parse frm) ''final_amount'' =
              Some (JNum (js_add (Fin s 0) (flt parse (js_get (doc frm) ''approved_amount'')))) \<and>
            js_strict_equals
              (js_add (Fin s 0) (flt parse (js_get (doc frm) ''approved_amount'')))
              (flt parse (js_get (doc frm) ''approved_amount'')))"
proof -
  from assms(2) have z: "flt parse (js_get (doc frm) f) = Fin False 0"
    by (rule flt_not_numeric)
  from assms(1) z have same:
    "doc (calculate_interest_amount parse frm) ''interest_amount'' =
       doc (calculate_interest_amount parse (set_value f (JNum (num_lit 0)) frm))
           ''interest_amount''"
    "doc (calculate_interest_amount parse frm) ''final_amount'' =
       doc (calculate_interest_amount parse (set_value f (JNum (num_lit 0)) frm))
           ''final_amount''"
    by (auto simp: calculate_interest_amount_interest_field
        calculate_interest_amount_final_field js_get_set_value)
  have example:
    "doc (calculate_interest_amount parse frm) ''interest_amount'' = Some (JNum (Fin s 0)) \<and>
     doc (calculate_interest_amount parse frm) ''final_amount'' =
       Some (JNum (js_add (Fin s 0) (flt parse (js_get (doc frm) ''approved_amount'')))) \<and>
     js_strict_equals
       (js_add (Fin s 0) (flt parse (js_get (doc frm) ''approved_amount'')))
       (flt parse (js_get (doc frm) ''approved_amount''))"
    if t: "f = ''tenure''"
      and p: "js_mul (flt parse (js_get (doc frm) ''approved_amount''))
                     (flt parse (js_get (doc frm) ''interest'')) = Fin s m"
      and d: "is_double (flt parse (js_get (doc frm) ''approved_amount''))"
  proof -
    from p obtain t b where A: "flt parse (js_get (doc frm) ''approved_amount'') = Fin t b"
      using js_mul_finite_left by blast
    from z t have T: "flt parse (js_get (doc frm) ''tenure'') = Fin False 0" by simp
    have ia: "js_div (js_mul (Fin s m) (Fin False 0)) (num_lit 100) = Fin s 0"
      by simp
    have "val s 0 + val t b = val t b" by (simp add: val_zero)
    with d A have "js_strict_equals (js_add (Fin s 0) (Fin t b)) (Fin t b)"
      using js_add_finite_to [of t b s 0 t b] by simp
    with p T ia A show ?thesis
      by (simp add: calculate_interest_amount_interest_field
          calculate_interest_amount_final_field del: js_add.simps js_mul.simps js_div.simps)
  qed
  from same example show ?thesis by blast
qed

theorem not_numeric_input_counts_as_zero_witness:
  "not_numeric parse_nothing
     (js_get (doc (loan_doc (JNum (Fin False 1000)) (JNum (Fin False 5)) (JStr []))) ''tenure'') \<and>
   js_mul (Fin False 1000) (Fin False 5) = Fin False 5000 \<and>
   is_double (Fin False 1000) \<and>
   doc (calculate_interest_amount parse_nothing
          (loan_doc (JNum (Fin False 1000)) (JNum (Fin False 5)) (JStr [])))
       ''interest_amount'' = Some (JNum (Fin False 0)) \<and>
   doc (calculate_interest_amount parse_nothing
          (loan_doc (JNum (Fin False 1000)) (JNum (Fin False 5)) (JStr [])))
       ''final_amount'' = Some (JNum (Fin False 1000)) \<and>
   doc (calculate_interest_amount parse_nothing
          (set_value ''tenure'' (JNum (num_lit 0))
             (loan_doc (JNum (Fin False 1000)) (JNum (Fin False 5)) (JStr []))))
       ''final_amount'' = Some (JNum (Fin False 1000))"
proof -
  let ?frm = "loan_doc (JNum (Fin False 1000)) (JNum (Fin False 5)) (JStr [])"
  have h1: "''tenure'' = ''approved_amount'' \<or> ''tenure'' = ''interest'' \<or> ''tenure'' = ''tenure''"
    by simp
  have h2: "not_numeric parse_nothing (js_get (doc ?frm) ''tenure'')"
    by (simp add: loan_doc_def)
  have A: "flt parse_nothing (js_get (doc ?frm) ''approved_amount'') = Fin False 1000"
    and I: "flt parse_nothing (js_get (doc ?frm) ''interest'') = Fin False 5"
    by (simp_all add: loan_doc_def)
  have m: "js_mul (Fin False 1000) (Fin False 5) = Fin False 5000"
    by (simp add: round_eval)
  have d: "is_double (Fin False 1000)"
    by (simp add: is_double_def round_eval)
  have s: "js_add (Fin False 0) (Fin False 1000) = Fin False 1000"
    by (simp add: round_eval)
  from m d A I have
    "''tenure'' = ''tenure'' \<and>
     js_mul (flt parse_nothing (js_get (doc ?frm) ''approved_amount''))
            (flt parse_nothing (js_get (doc ?frm) ''interest'')) = Fin False 5000 \<and>
     is_double (flt parse_nothing (js_get (doc ?frm) ''approved_amount''))"
    by (simp del: js_mul.simps)
  with not_numeric_input_counts_as_zero [OF h1 h2, of False 5000] have
    "doc (calculate_interest_amount parse_nothing ?frm) ''interest_amount'' =
       Some (JNum (Fin False 0))"
    "doc (calculate_interest_amount parse_nothing ?frm) ''final_amount'' =
       Some (JNum (js_add (Fin False 0)
         (flt parse_nothing (js_get (doc ?frm) ''approved_amount''))))"
    "doc (calculate_interest_amount parse_nothing ?frm) ''final_amount'' =
       doc (calculate_interest_amount parse_nothing
              (set_value ''tenure'' (JNum (num_lit 0)) ?frm)) ''final_amount''"
    by blast+
  with h2 m d A s show ?thesis
    by (simp del: js_add.simps js_mul.simps)
qed




end
